theory Spec2Isabelle
  imports Main
begin

section \<open>JavaScript values\<close>

text \<open>
  The three utilities of the repository handle form values: \<open>undefined\<close>, \<open>null\<close>,
  booleans, numbers, big integers, strings, arrays and plain objects. An array or an object is a
  reference value: two of them are the same value for \<open>===\<close> only when they are the same
  object. Each array and object node therefore carries its identity (a \<open>ref\<close>) next to
  its contents; an object's contents are its own enumerable properties in enumeration
  order. Numbers are the integers (the safe-integer range of a JavaScript number).
\<close>

type_synonym ref = nat

datatype jsval =
    JUndefined
  | JNull
  | JBool bool
  | JNum int
  | JBigInt int
  | JStr string
  | JArr ref "jsval list"
  | JObj ref "(string \<times> jsval) list"

type_synonym props = "(string \<times> jsval) list"

text \<open>\<open>a === b\<close>: by value on primitives, by identity on arrays and objects.\<close>

fun strict_eq :: "jsval \<Rightarrow> jsval \<Rightarrow> bool" where
  "strict_eq JUndefined b = (b = JUndefined)"
| "strict_eq JNull b = (b = JNull)"
| "strict_eq (JBool x) b = (b = JBool x)"
| "strict_eq (JNum x) b = (b = JNum x)"
| "strict_eq (JBigInt x) b = (b = JBigInt x)"
| "strict_eq (JStr x) b = (b = JStr x)"
| "strict_eq (JArr r xs) b = (case b of JArr s ys \<Rightarrow> r = s | _ \<Rightarrow> False)"
| "strict_eq (JObj r ps) b = (case b of JObj s qs \<Rightarrow> r = s | _ \<Rightarrow> False)"

text \<open>\<open>o[k]\<close> on the own properties of a data object: \<open>undefined\<close> when there is none.\<close>

definition read_prop :: "props \<Rightarrow> string \<Rightarrow> jsval" where
  "read_prop ps k = (case map_of ps k of None \<Rightarrow> JUndefined | Some v \<Rightarrow> v)"

text \<open>\<open>Array.prototype.join\<close> on strings that are already converted.\<close>

fun join :: "string \<Rightarrow> string list \<Rightarrow> string" where
  "join sep [] = []"
| "join sep [s] = s"
| "join sep (s # t # ss) = s @ sep @ join sep (t # ss)"

fun decimal :: "nat \<Rightarrow> string" where
  "decimal n =
     (if n < 10 then [char_of (48 + n)]
      else decimal (n div 10) @ [char_of (48 + n mod 10)])"

declare decimal.simps [simp del]

text \<open>
  \<open>String(v)\<close>, which is also what a template literal \<open>`${String(v)}`\<close> prints and how a
  property key \<open>o[v]\<close> is derived from a value that is not a symbol. An array prints
  its elements joined by commas, \<open>undefined\<close> and \<open>null\<close> elements as the empty string.
\<close>

fun js_String :: "jsval \<Rightarrow> string" where
  "js_String JUndefined = ''undefined''"
| "js_String JNull = ''null''"
| "js_String (JBool b) = (if b then ''true'' else ''false'')"
| "js_String (JNum n) = (if n < 0 then ''-'' @ decimal (nat (- n)) else decimal (nat n))"
| "js_String (JBigInt n) = (if n < 0 then ''-'' @ decimal (nat (- n)) else decimal (nat n))"
| "js_String (JStr s) = s"
| "js_String (JArr r xs) =
     join '','' (map (\<lambda>x. if x = JUndefined \<or> x = JNull then [] else js_String x) xs)"
| "js_String (JObj r ps) = ''[object Object]''"

section \<open>The discriminant dispatcher: \<open>createDiscriminatedSubmitHandler\<close>\<close>

text \<open>
  The dispatcher receives the submitted values as an object, builds a second object
  without the discriminant field and hands that one to a handler. Whether the first
  object is left alone is a question about the store, so the objects the dispatcher
  touches live in a heap: an address holds the own properties of one object, and
  \<open>next_addr\<close> is the first address not yet allocated. \<open>user\<close> is whatever else a
  handler may read or change.
\<close>

type_synonym addr = nat

record 'u world =
  heap :: "addr \<Rightarrow> props"
  next_addr :: addr
  user :: 'u

text \<open>\<open>new Error(message)\<close> and \<open>new TypeError(message)\<close>, thrown.\<close>

datatype error = Error string | TypeError string

text \<open>
  A submit handler is called with a reference to the data object; it returns its result
  \<open>'r\<close> (a value, a promise, or whatever it throws, all of which the dispatcher passes
  on as they are) and may change the world.
\<close>

type_synonym ('u, 'r) handler = "addr \<Rightarrow> 'u world \<Rightarrow> 'r \<times> 'u world"

text \<open>
  The handler table is an ordinary JavaScript object. A property read \<open>handlers[k]\<close>
  finds an own property first and otherwise follows the prototype chain; for an object
  literal the inherited properties are the members of \<open>Object.prototype\<close>
  (\<open>constructor\<close>, \<open>toString\<close>, \<open>valueOf\<close>, \<open>hasOwnProperty\<close>, ...).
\<close>

record ('u, 'r) handler_table =
  own_handlers :: "(string \<times> ('u, 'r) handler) list"
  inherited :: "(string \<times> ('u, 'r) handler) list"

definition get_handler :: "('u, 'r) handler_table \<Rightarrow> jsval \<Rightarrow> ('u, 'r) handler option" where
  "get_handler handlers v =
     (case map_of (own_handlers handlers) (js_String v) of
        Some h \<Rightarrow> Some h
      | None \<Rightarrow> map_of (inherited handlers) (js_String v))"

text \<open>
  Modelled from the spec: \<open>omit\<close> is imported from the package es-toolkit, which is not
  part of the repository's sources. The spec (4.1): \<open>omit(record, key)\<close> returns a shallow
  copy of \<open>record\<close> without \<open>key\<close>. The copy is a new object: it is allocated at the next
  free address and holds the remaining own properties, in their order.
\<close>

definition omit :: "addr \<Rightarrow> string list \<Rightarrow> 'u world \<Rightarrow> addr \<times> 'u world" where
  "omit obj keys w =
     (let result = next_addr w in
      (result,
       w\<lparr>heap := (heap w)(result := filter (\<lambda>(k, v). k \<notin> set keys) (heap w obj)),
         next_addr := Suc result\<rparr>))"

text \<open>
  \<open>createDiscriminatedSubmitHandler(form, discriminantKey, handlers)\<close> returns the
  function of \<open>values\<close>; the two further arguments below are that function's argument
  and the world it runs in. \<open>Inl\<close> is the \<open>Error\<close> the dispatcher throws itself. A handler
  is a function and so is truthy: \<open>!handler\<close> holds exactly when the read
  \<open>handlers[discriminantValue]\<close> finds no property. \<open>discriminantKey\<close> is a field name of the
  form type, read among the own properties of \<open>values\<close>.
\<close>

definition createDiscriminatedSubmitHandler ::
  "'f \<Rightarrow> string \<Rightarrow> ('u, 'r) handler_table \<Rightarrow> addr \<Rightarrow> 'u world \<Rightarrow> (error + 'r) \<times> 'u world" where
  "createDiscriminatedSubmitHandler form discriminantKey handlers = (\<lambda>values w.
     let discriminantValue = read_prop (heap w values) discriminantKey in
     case get_handler handlers discriminantValue of
       None \<Rightarrow>
         (Inl (Error (''No handler found for discriminant value: '' @ js_String discriminantValue)), w)
     | Some handler \<Rightarrow>
         (let (arg, w1) = omit values [discriminantKey] w;
              (r, w2) = handler arg w1
          in (Inr r, w2)))"

text \<open>\<open>Object.prototype.toString\<close> called as a plain function (\<open>this\<close> is \<open>undefined\<close>).\<close>

definition Object_prototype_toString :: "('u, jsval) handler" where
  "Object_prototype_toString = (\<lambda>arg w. (JStr ''[object Undefined]'', w))"

section \<open>The variant accessor factory: \<open>createDiscriminatedFormCtx\<close>\<close>

text \<open>The React context in which a component renders; \<open>'h\<close> is the type of form handles.\<close>

record 'h react_context =
  HookFormContext :: 'h

text \<open>
  Modelled from the spec: \<open>useFormContext\<close> is imported from the package react-hook-form,
  which is not part of the repository's sources. The spec (6): \<open>lookupSharedHandle()\<close> is
  the context-style lookup of the single shared container instance. The context of
  the calling component is the argument.
\<close>

definition useFormContext :: "'h react_context \<Rightarrow> 'h" where
  "useFormContext ctx = HookFormContext ctx"

text \<open>
  \<open>createDiscriminatedFormCtx<TFormValues, TDiscriminantKey>()\<close> takes no run-time
  argument and returns the hook \<open><T>() => useFormContext<...>()\<close>. The variant key \<open>T\<close> is
  a type argument: it is erased before the code runs. It is kept here as the argument
  \<open>T\<close> (\<open>None\<close> for the default \<open>undefined\<close>) so that hooks requested with different keys can
  be compared; the last argument is the context of the component that calls the hook.
\<close>

definition createDiscriminatedFormCtx :: "unit \<Rightarrow> string option \<Rightarrow> 'h react_context \<Rightarrow> 'h" where
  "createDiscriminatedFormCtx u = (\<lambda>T ctx. useFormContext ctx)"

section \<open>The discriminant matcher: \<open>useFormTypeguard\<close>\<close>

subsection \<open>Field paths\<close>

text \<open>
  A field path is a dot-delimited sequence of keys (spec, 3). \<open>split_dots\<close> gives the keys
  of a path and \<open>get_path\<close> follows them through nested records; a key that is not there,
  and any key of a value that is not a record, gives \<open>undefined\<close>.
\<close>

fun split_dots :: "string \<Rightarrow> string list" where
  "split_dots [] = [[]]"
| "split_dots (c # cs) =
     (if c = CHR ''.'' then [] # split_dots cs
      else (case split_dots cs of [] \<Rightarrow> [[c]] | s # ss \<Rightarrow> (c # s) # ss))"

fun get_path :: "jsval \<Rightarrow> string list \<Rightarrow> jsval" where
  "get_path v [] = v"
| "get_path (JObj r ps) (k # ks) =
     (case map_of ps k of None \<Rightarrow> JUndefined | Some v \<Rightarrow> get_path v ks)"
| "get_path v (k # ks) = JUndefined"

text \<open>
  Modelled from the spec: \<open>get\<close> is imported from the package es-toolkit (its compat
  entry), which is not part of the repository's sources. The spec (3): a pattern is a
  partial, possibly nested, mapping from field path to expected value, and a field path is
  a dot-delimited sequence of keys. \<open>get(object, path)\<close> is the value the object holds for
  the path: the own property of that very name when there is one, otherwise the value
  reached key by key along the path, and \<open>undefined\<close> when there is none.
\<close>

definition get :: "jsval \<Rightarrow> string \<Rightarrow> jsval" where
  "get object path =
     (case object of
        JObj r ps \<Rightarrow>
          (case map_of ps path of
             Some v \<Rightarrow> (if v = JUndefined then get_path object (split_dots path) else v)
           | None \<Rightarrow> get_path object (split_dots path))
      | _ \<Rightarrow> JUndefined)"

text \<open>
  Modelled from the spec: the form's container belongs to react-hook-form. The spec (6):
  \<open>getFieldValue(path)\<close> is the container's current value at a field path; an absent field
  reads as \<open>undefined\<close>. The container is identified with the record of values it holds.
\<close>

definition getFieldValue :: "jsval \<Rightarrow> string \<Rightarrow> jsval" where
  "getFieldValue formValues path = get_path formValues (split_dots path)"

record UseFormReturn =
  control :: jsval

subsection \<open>Flattening a pattern\<close>

text \<open>
  Modelled from the spec: \<open>flattenObject\<close> is imported from the package es-toolkit, which
  is not part of the repository's sources. The spec (4.1): the result holds every leaf
  reachable by descending through nested mapping values, each under its own path (the
  keys joined by \<open>.\<close>); a leaf is any value that is not itself a plain key-value mapping, so
  arrays and primitives are leaves. The result is an object: its properties are listed in
  the order in which the leaves are met.
\<close>

fun flattenObjectImpl :: "string list \<Rightarrow> props \<Rightarrow> props" where
  "flattenObjectImpl path [] = []"
| "flattenObjectImpl path ((key, v) # rest) =
     (case v of
        JObj r ps \<Rightarrow> flattenObjectImpl (path @ [key]) ps
      | _ \<Rightarrow> [(join ''.'' (path @ [key]), v)])
     @ flattenObjectImpl path rest"

text \<open>
  Modelled from the spec: \<open>flattenObject(pattern)\<close> itself (see \<open>flattenObjectImpl\<close>): the
  leaves of the pattern's own properties, under their paths from the top.
\<close>

definition flattenObject :: "jsval \<Rightarrow> props" where
  "flattenObject object = (case object of JObj r ps \<Rightarrow> flattenObjectImpl [] ps | _ \<Rightarrow> [])"

text \<open>
  The spec's own description of the leaves of a record, to compare \<open>flattenObject\<close> with:
  \<open>leaf_at ps ks v\<close> holds when following the keys \<open>ks\<close> from the properties \<open>ps\<close>, through
  plain mappings only, ends in the value \<open>v\<close>, which is not a plain mapping.
\<close>

definition is_mapping :: "jsval \<Rightarrow> bool" where
  "is_mapping v = (case v of JObj r ps \<Rightarrow> True | _ \<Rightarrow> False)"

inductive leaf_at :: "props \<Rightarrow> string list \<Rightarrow> jsval \<Rightarrow> bool" where
  here: "(k, v) \<in> set ps \<Longrightarrow> \<not> is_mapping v \<Longrightarrow> leaf_at ps [k] v"
| below: "(k, JObj r qs) \<in> set ps \<Longrightarrow> leaf_at qs ks v \<Longrightarrow> leaf_at ps (k # ks) v"

subsection \<open>The memo key\<close>

definition hex_digit :: "nat \<Rightarrow> char" where
  "hex_digit n = (if n < 10 then char_of (48 + n) else char_of (87 + n))"

text \<open>The escapes of \<open>JSON.stringify\<close> inside a string (QuoteJSONString).\<close>

definition json_escape :: "char \<Rightarrow> string" where
  "json_escape c =
     (if c = CHR 0x22 then [CHR 0x5C, CHR 0x22]
      else if c = CHR 0x5C then [CHR 0x5C, CHR 0x5C]
      else if c = CHR 0x08 then [CHR 0x5C, CHR ''b'']
      else if c = CHR 0x0C then [CHR 0x5C, CHR ''f'']
      else if c = CHR 0x0A then [CHR 0x5C, CHR ''n'']
      else if c = CHR 0x0D then [CHR 0x5C, CHR ''r'']
      else if c = CHR 0x09 then [CHR 0x5C, CHR ''t'']
      else if (of_char c :: nat) < 32
        then [CHR 0x5C, CHR ''u'', CHR ''0'', CHR ''0'',
              hex_digit (of_char c div 16), hex_digit (of_char c mod 16)]
      else [c])"

definition QuoteJSONString :: "string \<Rightarrow> string" where
  "QuoteJSONString s = [CHR 0x22] @ concat (map json_escape s) @ [CHR 0x22]"

text \<open>The results of a list of evaluations done in order: the first error is the outcome.\<close>

fun sequence :: "(error + 'a) list \<Rightarrow> error + 'a list" where
  "sequence [] = Inr []"
| "sequence (x # xs) =
     (case x of
        Inl e \<Rightarrow> Inl e
      | Inr a \<Rightarrow> (case sequence xs of Inl e \<Rightarrow> Inl e | Inr as \<Rightarrow> Inr (a # as)))"

text \<open>
  \<open>JSON.stringify(v)\<close>: \<open>Inr None\<close> is the result \<open>undefined\<close>. A property whose value has
  no JSON text is left out of an object; such an element of an array prints as \<open>null\<close>.
  A big integer anywhere in the value makes the call throw a \<open>TypeError\<close>.
\<close>

fun JSON_stringify :: "jsval \<Rightarrow> error + string option" where
  "JSON_stringify JUndefined = Inr None"
| "JSON_stringify JNull = Inr (Some ''null'')"
| "JSON_stringify (JBool b) = Inr (Some (if b then ''true'' else ''false''))"
| "JSON_stringify (JNum n) = Inr (Some (js_String (JNum n)))"
| "JSON_stringify (JBigInt n) = Inl (TypeError ''Do not know how to serialize a BigInt'')"
| "JSON_stringify (JStr s) = Inr (Some (QuoteJSONString s))"
| "JSON_stringify (JArr r xs) =
     (case sequence (map JSON_stringify xs) of
        Inl e \<Rightarrow> Inl e
      | Inr ss \<Rightarrow>
          Inr (Some (''['' @ join '','' (map (\<lambda>s. case s of None \<Rightarrow> ''null'' | Some t \<Rightarrow> t) ss)
                     @ '']'')))"
| "JSON_stringify (JObj r ps) =
     (case sequence (map (\<lambda>(k, v). case JSON_stringify v of Inl e \<Rightarrow> Inl e | Inr s \<Rightarrow> Inr (k, s)) ps) of
        Inl e \<Rightarrow> Inl e
      | Inr kss \<Rightarrow>
          Inr (Some (''{'' @ join '','' (concat (map (\<lambda>(k, s). case s of
                                              None \<Rightarrow> []
                                            | Some t \<Rightarrow> [QuoteJSONString k @ '':'' @ t]) kss))
                     @ ''}'')))"

subsection \<open>The hook\<close>

text \<open>
  An array of strings, as \<open>Object.keys\<close> returns it: its identity and its elements.
\<close>

type_synonym keys_array = "ref \<times> string list"

definition Object_keys :: "ref \<Rightarrow> props \<Rightarrow> keys_array" where
  "Object_keys r ps = (r, map fst ps)"

text \<open>\<open>xs[i]\<close> on an array: \<open>undefined\<close> past its end.\<close>

definition array_read :: "jsval list \<Rightarrow> nat \<Rightarrow> jsval" where
  "array_read xs i = (if i < length xs then xs ! i else JUndefined)"

text \<open>\<open>xs.every((x, index) => f(x, index))\<close>.\<close>

definition every :: "(string \<Rightarrow> nat \<Rightarrow> bool) \<Rightarrow> keys_array \<Rightarrow> bool" where
  "every f xs = list_all (\<lambda>(x, i). f x i) (zip (snd xs) [0..<length (snd xs)])"

text \<open>
  What one use of the hook keeps between renders of its component: the cell of
  \<open>useMemo\<close> (the dependency it was computed for and the memoised array), and the state
  of \<open>useWatch\<close> (the array of names the live subscription was made with, the callback of
  the latest render and the value it last computed). \<open>fresh\<close> is the next unused array
  identity; \<open>subscribe_calls\<close> and \<open>compute_calls\<close> count the calls of the container's
  \<open>subscribe\<close> and of the \<open>compute\<close> callback.
\<close>

record matcher =
  fresh :: ref
  memo :: "(string option \<times> keys_array) option"
  subscription :: "keys_array option"
  callback :: "jsval list \<Rightarrow> bool"
  isMatching :: bool
  subscribe_calls :: nat
  compute_calls :: nat

definition unmounted :: matcher where
  "unmounted = \<lparr>fresh = 0, memo = None, subscription = None, callback = (\<lambda>values. False),
                isMatching = False, subscribe_calls = 0, compute_calls = 0\<rparr>"

text \<open>
  Modelled from the spec: \<open>useMemo\<close> belongs to the package react, which is not part of
  the repository's sources. The spec (4.2): the derivation is memoised, keyed on the
  dependency: when the dependency is the one of the previous render the memoised array
  is returned as it is, otherwise the factory runs and returns a new array. The factory
  is handed the identity of the array it creates.
\<close>

definition useMemo :: "(ref \<Rightarrow> keys_array) \<Rightarrow> string option \<Rightarrow> matcher \<Rightarrow> keys_array \<times> matcher" where
  "useMemo factory dep m =
     (let run = (let v = factory (fresh m) in (v, m\<lparr>fresh := Suc (fresh m), memo := Some (dep, v)\<rparr>)) in
      case memo m of
        None \<Rightarrow> run
      | Some (d, v) \<Rightarrow> if d = dep then (v, m) else run)"

text \<open>
  Modelled from the spec: \<open>useWatch\<close> belongs to the package react-hook-form, which is not
  part of the repository's sources. The spec (4.2, 6): \<open>subscribe(paths, onChange)\<close>
  subscribes to exactly the given paths and fires \<open>onChange\<close> with the current values at
  those paths; the subscription is fixed as long as the derived array of paths is, and it
  is made anew when that array is derived anew. The hook returns the value computed last.
\<close>

definition useWatch ::
  "(jsval list \<Rightarrow> bool) \<Rightarrow> jsval \<Rightarrow> keys_array \<Rightarrow> matcher \<Rightarrow> bool \<times> matcher" where
  "useWatch compute ctrl name m =
     (if subscription m = Some name then (isMatching m, m\<lparr>callback := compute\<rparr>)
      else
        (let b = compute (map (getFieldValue ctrl) (snd name)) in
         (b, m\<lparr>subscription := Some name, callback := compute, isMatching := b,
               subscribe_calls := Suc (subscribe_calls m),
               compute_calls := Suc (compute_calls m)\<rparr>)))"

text \<open>
  Modelled from the spec: the container's notification belongs to react-hook-form. The
  spec (6): \<open>onChange\<close> fires with the current values at the subscribed paths whenever any
  of them changes. \<open>before\<close> and \<open>after\<close> are the container's values before and after a
  change: the subscription is notified when the value at one of its paths is no longer
  the same, whichever field was written (a write to a parent changes its fields too).
\<close>

definition notified :: "jsval \<Rightarrow> jsval \<Rightarrow> matcher \<Rightarrow> bool" where
  "notified before after m =
     (case subscription m of
        None \<Rightarrow> False
      | Some name \<Rightarrow> list_ex (\<lambda>path. getFieldValue before path \<noteq> getFieldValue after path) (snd name))"

text \<open>
  Modelled from the spec: \<open>onChange\<close> as \<open>useWatch\<close> installs it (react-hook-form; spec 4.2,
  step 3): it runs the callback of the latest render on the current values at the
  subscribed paths and keeps the result.
\<close>

definition onChange :: "jsval \<Rightarrow> matcher \<Rightarrow> matcher" where
  "onChange after m =
     (case subscription m of
        None \<Rightarrow> m
      | Some name \<Rightarrow>
          m\<lparr>isMatching := callback m (map (getFieldValue after) (snd name)),
            compute_calls := Suc (compute_calls m)\<rparr>)"

text \<open>
  Modelled from the spec: a change of the container, as the matcher sees it (spec 6):
  \<open>onChange\<close> runs when the subscription is notified, and nothing happens otherwise.
\<close>

definition notify :: "jsval \<Rightarrow> jsval \<Rightarrow> matcher \<Rightarrow> matcher" where
  "notify before after m = (if notified before after m then onChange after m else m)"

text \<open>The \<open>compute\<close> callback that \<open>useFormTypeguard\<close> passes to \<open>useWatch\<close>.\<close>

definition compute :: "jsval \<Rightarrow> keys_array \<Rightarrow> jsval list \<Rightarrow> bool" where
  "compute discriminant discriminantKeys = (\<lambda>values.
     every (\<lambda>key index. strict_eq (array_read values index) (get discriminant key)) discriminantKeys)"

text \<open>
  One render of a component that calls the hook. The dependency \<open>JSON.stringify(discriminant)\<close>
  is evaluated first, as an argument of \<open>useMemo\<close>; when it throws, the render throws.
\<close>

definition useFormTypeguard :: "UseFormReturn \<Rightarrow> jsval \<Rightarrow> matcher \<Rightarrow> error + bool \<times> matcher" where
  "useFormTypeguard form discriminant m =
     (case JSON_stringify discriminant of
        Inl e \<Rightarrow> Inl e
      | Inr dep \<Rightarrow>
          (let (discriminantKeys, m1) =
                 useMemo (\<lambda>r. Object_keys r (flattenObject discriminant)) dep m;
               (isMatching, m2) =
                 useWatch (compute discriminant discriminantKeys) (control form) discriminantKeys m1
           in Inr (isMatching, m2)))"

text \<open>
  The next render of the same component (there is none after a render that threw), and
  the state a render leaves.
\<close>

definition then_render ::
  "error + bool \<times> matcher \<Rightarrow> UseFormReturn \<Rightarrow> jsval \<Rightarrow> error + bool \<times> matcher" where
  "then_render r form discriminant =
     (case r of Inl e \<Rightarrow> Inl e | Inr (b, m) \<Rightarrow> useFormTypeguard form discriminant m)"

definition matcher_of :: "error + bool \<times> matcher \<Rightarrow> matcher option" where
  "matcher_of r = (case r of Inl e \<Rightarrow> None | Inr (b, m) \<Rightarrow> Some m)"

text \<open>The JSON text of a value on which \<open>JSON.stringify\<close> does not throw.\<close>

definition JSON_text :: "jsval \<Rightarrow> string option" where
  "JSON_text v = (case JSON_stringify v of Inl e \<Rightarrow> None | Inr t \<Rightarrow> t)"

text \<open>The matcher holds a subscription to the paths of the flattened pattern \<open>d\<close>.\<close>

definition watching :: "jsval \<Rightarrow> matcher \<Rightarrow> bool" where
  "watching d m =
     (case subscription m of None \<Rightarrow> False | Some name \<Rightarrow> snd name = map fst (flattenObject d))"

text \<open>
  Equality by value, in the spec's words: the same properties in the same order and the
  same elements, whatever the identities of the objects and arrays. \<open>erase\<close> forgets the
  identities.
\<close>

fun erase :: "jsval \<Rightarrow> jsval" where
  "erase (JArr r xs) = JArr 0 (map erase xs)"
| "erase (JObj r ps) = JObj 0 (map (\<lambda>(k, v). (k, erase v)) ps)"
| "erase v = v"

definition deep_eq :: "jsval \<Rightarrow> jsval \<Rightarrow> bool" where
  "deep_eq a b = (erase a = erase b)"

text \<open>
  The matcher as the spec words it (4.2, step 3), to compare the hook with: the
  conjunction, over the flattened pairs, of the current value at the path being equal to
  the expected value, by value on arrays and objects.
\<close>

definition spec_matches :: "jsval \<Rightarrow> jsval \<Rightarrow> bool" where
  "spec_matches formValues pattern =
     list_all (\<lambda>(path, expected). deep_eq (getFieldValue formValues path) expected)
       (flattenObject pattern)"

text \<open>
  Equality by value of two patterns as mappings, in the spec's words (3: a pattern is a
  mapping from field path to expected value): the same keys with values that are equal by
  value, in whatever order the properties are listed; arrays element by element.
\<close>

fun value_eq :: "jsval \<Rightarrow> jsval \<Rightarrow> bool"
  and props_within :: "props \<Rightarrow> props \<Rightarrow> bool"
  and elems_eq :: "jsval list \<Rightarrow> jsval list \<Rightarrow> bool" where
  "value_eq (JArr r xs) b = (case b of JArr s ys \<Rightarrow> elems_eq xs ys | _ \<Rightarrow> False)"
| "value_eq (JObj r ps) b =
     (case b of
        JObj s qs \<Rightarrow> props_within ps qs \<and> set (map fst qs) \<subseteq> set (map fst ps)
      | _ \<Rightarrow> False)"
| "value_eq JUndefined b = (b = JUndefined)"
| "value_eq JNull b = (b = JNull)"
| "value_eq (JBool x) b = (b = JBool x)"
| "value_eq (JNum x) b = (b = JNum x)"
| "value_eq (JBigInt x) b = (b = JBigInt x)"
| "value_eq (JStr x) b = (b = JStr x)"
| "props_within [] qs = True"
| "props_within ((k, v) # ps) qs =
     ((case map_of qs k of None \<Rightarrow> False | Some w \<Rightarrow> value_eq v w) \<and> props_within ps qs)"
| "elems_eq [] ys = (ys = [])"
| "elems_eq (x # xs) ys = (case ys of [] \<Rightarrow> False | y # zs \<Rightarrow> value_eq x y \<and> elems_eq xs zs)"

text \<open>
  A record whose keys, at every level, are distinct and contain no dot: a flattened path
  then leads back to its leaf.
\<close>

fun well_keyed :: "props \<Rightarrow> bool" where
  "well_keyed [] = True"
| "well_keyed ((k, v) # rest) =
     (CHR ''.'' \<notin> set k \<and> k \<notin> fst ` set rest
      \<and> (case v of JObj r qs \<Rightarrow> well_keyed qs | _ \<Rightarrow> True)
      \<and> well_keyed rest)"

section \<open>Example inputs\<close>

text \<open>
  Two handlers that record their call, with the properties of the object they were given,
  in the \<open>user\<close> part of the world.
\<close>

definition h1 :: "((string \<times> props) list, jsval) handler" where
  "h1 = (\<lambda>arg w. (JStr ''r1'', w\<lparr>user := user w @ [(''h1'', heap w arg)]\<rparr>))"

definition h2 :: "((string \<times> props) list, jsval) handler" where
  "h2 = (\<lambda>arg w. (JStr ''r2'', w\<lparr>user := user w @ [(''h2'', heap w arg)]\<rparr>))"

text \<open>A world whose only object, at address 0, is the snapshot \<open>{kind: ..., value: 5}\<close>.\<close>

definition snapshot_world :: "jsval \<Rightarrow> (string \<times> props) list world" where
  "snapshot_world kind =
     \<lparr>heap = (\<lambda>a. [])(0 := [(''kind'', kind), (''value'', JNum 5)]), next_addr = 1, user = []\<rparr>"

text \<open>
  The pattern of the second example in the documentation comment of \<open>useFormTypeguard\<close>,
  \<open>{userType: 'premium', 'subscription.isActive': true, 'profile.features': ['advanced',
  'priority']}\<close>, and a form that holds exactly these values. The array in the form and the
  array in the pattern are two objects with the same elements.
\<close>

definition docstring_pattern :: jsval where
  "docstring_pattern =
     JObj 21 [(''userType'', JStr ''premium''),
              (''subscription.isActive'', JBool True),
              (''profile.features'', JArr 22 [JStr ''advanced'', JStr ''priority''])]"

definition premium_form :: UseFormReturn where
  "premium_form =
     \<lparr>control = JObj 31 [(''userType'', JStr ''premium''),
                         (''subscription'', JObj 32 [(''isActive'', JBool True)]),
                         (''profile'', JObj 33 [(''features'', JArr 34 [JStr ''advanced'', JStr ''priority''])])]\<rparr>"

text \<open>The form \<open>{kind: k, value: "x"}\<close> and the pattern \<open>{kind: "a"}\<close>, built as the object \<open>r\<close>.\<close>

definition kind_form :: "string \<Rightarrow> UseFormReturn" where
  "kind_form k = \<lparr>control = JObj 41 [(''kind'', JStr k), (''value'', JStr ''x'')]\<rparr>"

definition kind_pattern :: "ref \<Rightarrow> jsval" where
  "kind_pattern r = JObj r [(''kind'', JStr ''a'')]"



definition kind_value_pattern :: jsval where
  "kind_value_pattern = JObj 61 [(''kind'', JStr ''a''), (''value'', JUndefined)]"

definition bigint_pattern :: jsval where
  "bigint_pattern = JObj 81 [(''id'', JBigInt 10)]"

definition value_form :: "string \<Rightarrow> UseFormReturn" where
  "value_form v = \<lparr>control = JObj 41 [(''kind'', JStr ''a''), (''value'', JStr v)]\<rparr>"

section \<open>Properties of the dispatcher\<close>

lemma map_of_filter_neq:
  "map_of (filter (\<lambda>(k, v). k \<noteq> d) ps) k = (if k = d then None else map_of ps k)"
  by (induction ps) auto

lemma read_prop_omitted:
  "read_prop (filter (\<lambda>(k, v). k \<noteq> d) ps) k = (if k = d then JUndefined else read_prop ps k)"
  by (simp add: read_prop_def map_of_filter_neq)

text \<open>
  C2. When the snapshot's discriminant value has a registered handler \<open>h\<close>, the dispatch
  function calls \<open>h\<close> and nothing else: its result and the world it leaves are those of \<open>h\<close>
  applied to the object made by \<open>omit\<close>. That object holds the snapshot's properties
  without the discriminant field, every other field with the value it has in the snapshot.
\<close>

theorem dispatch_invokes_registered_handler:
  assumes "map_of (own_handlers handlers) (js_String (read_prop (heap w snapshot) discriminantKey)) = Some h"
  shows "(let (arg, w1) = omit snapshot [discriminantKey] w in
          createDiscriminatedSubmitHandler form discriminantKey handlers snapshot w
            = (Inr (fst (h arg w1)), snd (h arg w1))
          \<and> heap w1 arg = filter (\<lambda>(k, v). k \<noteq> discriminantKey) (heap w snapshot)
          \<and> read_prop (heap w1 arg) discriminantKey = JUndefined
          \<and> (\<forall>k. k \<noteq> discriminantKey \<longrightarrow> read_prop (heap w1 arg) k = read_prop (heap w snapshot) k)
          \<and> user w1 = user w)"
  using assms
  by (simp add: createDiscriminatedSubmitHandler_def get_handler_def omit_def Let_def
      split_beta read_prop_omitted)

text \<open>
  The spec's example: with handlers \<open>{a: h1, b: h2}\<close> and the snapshot
  \<open>{kind: "b", value: 5}\<close> the result is that of \<open>h2\<close>, and the only call recorded is the
  call of \<open>h2\<close> with \<open>{value: 5}\<close>.
\<close>

theorem dispatch_invokes_registered_handler_witness:
  "createDiscriminatedSubmitHandler () ''kind''
       \<lparr>own_handlers = [(''a'', h1), (''b'', h2)], inherited = []\<rparr> 0 (snapshot_world (JStr ''b''))
     = (Inr (JStr ''r2''),
        \<lparr>heap = (\<lambda>a. [])(0 := [(''kind'', JStr ''b''), (''value'', JNum 5)], 1 := [(''value'', JNum 5)]),
         next_addr = 2, user = [(''h2'', [(''value'', JNum 5)])]\<rparr>)"
  using dispatch_invokes_registered_handler
    [where handlers = "\<lparr>own_handlers = [(''a'', h1), (''b'', h2)], inherited = []\<rparr>"
       and w = "snapshot_world (JStr ''b'')" and snapshot = 0 and discriminantKey = "''kind''"
       and h = h2 and form = "()"]
  by (simp add: snapshot_world_def read_prop_def omit_def h2_def Let_def)

text \<open>
  The dispatcher throws exactly when the property read \<open>handlers[discriminantValue]\<close> finds
  nothing, own or inherited; the message ends with \<open>String(discriminantValue)\<close>, and the
  world is left as it was.
\<close>

lemma dispatch_throws_iff:
  "(\<exists>e. fst (createDiscriminatedSubmitHandler form discriminantKey handlers snapshot w) = Inl e)
     \<longleftrightarrow> get_handler handlers (read_prop (heap w snapshot) discriminantKey) = None"
  by (auto simp: createDiscriminatedSubmitHandler_def Let_def split_beta split: option.splits)

lemma dispatch_error_message:
  assumes "fst (createDiscriminatedSubmitHandler form discriminantKey handlers snapshot w) = Inl e"
  shows "e = Error (''No handler found for discriminant value: ''
                    @ js_String (read_prop (heap w snapshot) discriminantKey))
         \<and> snd (createDiscriminatedSubmitHandler form discriminantKey handlers snapshot w) = w"
  using assms
  by (auto simp: createDiscriminatedSubmitHandler_def Let_def split_beta split: option.splits)

lemma missing_handler_example:
  "createDiscriminatedSubmitHandler () ''kind''
       \<lparr>own_handlers = [(''a'', h1)], inherited = [(''toString'', Object_prototype_toString)]\<rparr>
       0 (snapshot_world (JStr ''b''))
     = (Inl (Error ''No handler found for discriminant value: b''), snapshot_world (JStr ''b''))"
  by (simp add: createDiscriminatedSubmitHandler_def get_handler_def snapshot_world_def
      read_prop_def Let_def)

text \<open>
  C3. The claim: the dispatcher throws if and only if the discriminant value has no entry
  in the handler table. It does not hold for a discriminant value that names a member of
  \<open>Object.prototype\<close>: with the handlers \<open>{a: h1}\<close> and the snapshot
  \<open>{kind: "toString", value: 5}\<close> the table has no entry for \<open>"toString"\<close>, yet
  \<open>handlers["toString"]\<close> is the inherited function, nothing is thrown and that function
  is called with \<open>{value: 5}\<close>.
\<close>

theorem inherited_key_is_dispatched:
  "createDiscriminatedSubmitHandler () ''kind''
       \<lparr>own_handlers = [(''a'', h1)], inherited = [(''toString'', Object_prototype_toString)]\<rparr>
       0 (snapshot_world (JStr ''toString''))
     = (Inr (JStr ''[object Undefined]''),
        \<lparr>heap = (\<lambda>a. [])(0 := [(''kind'', JStr ''toString''), (''value'', JNum 5)], 1 := [(''value'', JNum 5)]),
         next_addr = 2, user = []\<rparr>)
   \<and> map_of [(''a'', h1)] ''toString'' = None"
  by (simp add: createDiscriminatedSubmitHandler_def get_handler_def snapshot_world_def
      read_prop_def omit_def Object_prototype_toString_def Let_def)

text \<open>
  C7. The dispatcher never writes to the snapshot. \<open>omit\<close> returns an object other than its
  argument, which holds the snapshot's properties without the discriminant field, and it
  leaves every object that existed before as it was. When no handler is found the world is
  unchanged. When a handler is called, it is called on the new object, and the snapshot is
  after the dispatch what it was before, provided the handler itself does not write to it.
\<close>

theorem dispatch_leaves_snapshot:
  assumes "snapshot < next_addr w"
  shows "(let (arg, w1) = omit snapshot [discriminantKey] w in
            arg \<noteq> snapshot
            \<and> heap w1 arg = filter (\<lambda>(k, v). k \<noteq> discriminantKey) (heap w snapshot)
            \<and> (\<forall>a. a < next_addr w \<longrightarrow> heap w1 a = heap w a))
         \<and> (case get_handler handlers (read_prop (heap w snapshot) discriminantKey) of
              None \<Rightarrow> snd (createDiscriminatedSubmitHandler form discriminantKey handlers snapshot w) = w
            | Some h \<Rightarrow>
                (let (arg, w1) = omit snapshot [discriminantKey] w in
                   heap (snd (h arg w1)) snapshot = heap w1 snapshot \<longrightarrow>
                   heap (snd (createDiscriminatedSubmitHandler form discriminantKey handlers snapshot w)) snapshot
                     = heap w snapshot))"
  using assms
  by (auto simp: createDiscriminatedSubmitHandler_def omit_def Let_def split_beta split: option.splits)

theorem dispatch_leaves_snapshot_witness:
  "heap (snd (createDiscriminatedSubmitHandler () ''kind''
       \<lparr>own_handlers = [(''a'', h1), (''b'', h2)], inherited = []\<rparr> 0 (snapshot_world (JStr ''b'')))) 0
     = [(''kind'', JStr ''b''), (''value'', JNum 5)]
   \<and> snd (createDiscriminatedSubmitHandler () ''kind''
       \<lparr>own_handlers = [(''a'', h1)], inherited = []\<rparr> 0 (snapshot_world (JStr ''b'')))
     = snapshot_world (JStr ''b'')"
  using dispatch_leaves_snapshot
    [where snapshot = 0 and w = "snapshot_world (JStr ''b'')" and discriminantKey = "''kind''"
       and handlers = "\<lparr>own_handlers = [(''a'', h1), (''b'', h2)], inherited = []\<rparr>" and form = "()"]
    dispatch_leaves_snapshot
    [where snapshot = 0 and w = "snapshot_world (JStr ''b'')" and discriminantKey = "''kind''"
       and handlers = "\<lparr>own_handlers = [(''a'', h1)], inherited = []\<rparr>" and form = "()"]
  by (simp add: snapshot_world_def get_handler_def read_prop_def omit_def h2_def Let_def)

text \<open>
  C10. The \<open>form\<close> argument is never used: for any two form handles, of any types, the
  functions returned for the same key and handlers give the same result and leave the same
  world on every input.
\<close>

theorem createDiscriminatedSubmitHandler_ignores_form:
  "createDiscriminatedSubmitHandler (f1 :: 'f) discriminantKey handlers
     = createDiscriminatedSubmitHandler (f2 :: 'g) discriminantKey handlers"
  by (simp add: createDiscriminatedSubmitHandler_def)

section \<open>Properties of the accessor factory\<close>

text \<open>
  C6. The hook returned by \<open>createDiscriminatedFormCtx\<close> does not look at the variant key:
  requested with any two keys, in any context and whatever the form in it currently holds,
  it returns the same handle, the one the context provides. There is no branch and no error
  result.
\<close>

theorem accessor_ignores_variant_key:
  "createDiscriminatedFormCtx () T1 ctx = createDiscriminatedFormCtx () T2 ctx
   \<and> createDiscriminatedFormCtx () T1 ctx = HookFormContext ctx"
  by (simp add: createDiscriminatedFormCtx_def useFormContext_def)

section \<open>Properties of the flattening\<close>

lemma leaf_at_not_mapping: "leaf_at ps ks v \<Longrightarrow> \<not> is_mapping v"
  by (induction rule: leaf_at.induct) auto

lemma leaf_at_mono: "leaf_at ps ks v \<Longrightarrow> set ps \<subseteq> set qs \<Longrightarrow> leaf_at qs ks v"
  by (induction rule: leaf_at.induct) (auto intro: leaf_at.intros)

lemma flatten_sound:
  "(p, v) \<in> set (flattenObjectImpl path ps) \<Longrightarrow> \<exists>ks. leaf_at ps ks v \<and> p = join ''.'' (path @ ks)"
proof (induction path ps rule: flattenObjectImpl.induct)
  case (1 path)
  then show ?case by simp
next
  case (2 path key w rest)
  from "2.prems" consider
      (head) "(p, v) \<in> set (case w of JObj r ps \<Rightarrow> flattenObjectImpl (path @ [key]) ps
                                | _ \<Rightarrow> [(join ''.'' (path @ [key]), w)])"
    | (tail) "(p, v) \<in> set (flattenObjectImpl path rest)"
    by auto
  then show ?case
  proof cases
    case head
    show ?thesis
    proof (cases "is_mapping w")
      case True
      then obtain r qs where w: "w = JObj r qs" by (cases w) (auto simp: is_mapping_def)
      with head have "(p, v) \<in> set (flattenObjectImpl (path @ [key]) qs)" by simp
      from "2.IH"(1) [OF w this] obtain ks where
        "leaf_at qs ks v" "p = join ''.'' ((path @ [key]) @ ks)" by blast
      then have "leaf_at ((key, w) # rest) (key # ks) v \<and> p = join ''.'' (path @ key # ks)"
        using w by (auto intro: leaf_at.below)
      then show ?thesis by blast
    next
      case False
      with head have "p = join ''.'' (path @ [key])" "v = w"
        by (cases w; simp add: is_mapping_def)+
      with False have "leaf_at ((key, w) # rest) [key] v \<and> p = join ''.'' (path @ [key])"
        by (auto intro: leaf_at.here)
      then show ?thesis by blast
    qed
  next
    case tail
    from "2.IH"(2) [OF tail] obtain ks where "leaf_at rest ks v" "p = join ''.'' (path @ ks)"
      by blast
    then have "leaf_at ((key, w) # rest) ks v \<and> p = join ''.'' (path @ ks)"
      by (auto intro: leaf_at_mono)
    then show ?thesis by blast
  qed
qed

lemma flatten_leaf_here:
  "(k, v) \<in> set ps \<Longrightarrow> \<not> is_mapping v \<Longrightarrow> (join ''.'' (path @ [k]), v) \<in> set (flattenObjectImpl path ps)"
proof (induction path ps rule: flattenObjectImpl.induct)
  case (1 path)
  then show ?case by simp
next
  case (2 path key w rest)
  then show ?case by (cases w) (auto simp: is_mapping_def)
qed

lemma flatten_leaf_below:
  "(k, JObj r qs) \<in> set ps \<Longrightarrow> set (flattenObjectImpl (path @ [k]) qs) \<subseteq> set (flattenObjectImpl path ps)"
proof (induction path ps rule: flattenObjectImpl.induct)
  case (1 path)
  then show ?case by simp
next
  case (2 path key w rest)
  then show ?case by (cases w) auto
qed

lemma flatten_complete:
  "leaf_at ps ks v \<Longrightarrow> (join ''.'' (path @ ks), v) \<in> set (flattenObjectImpl path ps)"
proof (induction arbitrary: path rule: leaf_at.induct)
  case (here k v ps)
  then show ?case by (rule flatten_leaf_here)
next
  case (below k r qs ps ks v)
  from below.IH [of "path @ [k]"] flatten_leaf_below [OF below.hyps(1), of path]
  show ?case by auto
qed

lemma set_flattenObject:
  "set (flattenObject (JObj r ps)) = {(join ''.'' ks, v) | ks v. leaf_at ps ks v}"
proof (rule set_eqI)
  fix x :: "string \<times> jsval"
  obtain p v where x: "x = (p, v)" by (cases x)
  have "(p, v) \<in> set (flattenObjectImpl [] ps) \<longleftrightarrow> (\<exists>ks. leaf_at ps ks v \<and> p = join ''.'' ks)"
    using flatten_sound [of p v "[]" ps] flatten_complete [of ps _ v "[]"] by auto
  then show "x \<in> set (flattenObject (JObj r ps)) \<longleftrightarrow> x \<in> {(join ''.'' ks, v) | ks v. leaf_at ps ks v}"
    by (auto simp: x flattenObject_def)
qed

text \<open>
  C4. For every pattern object the flattening holds exactly the pairs of a dotted path and
  the leaf reached along it through nested plain mappings. No value in the result is a
  plain mapping, and an array among the properties is in the result as it is, under its
  own key: it is a leaf and is not descended into. \<open>flatten({a: {b: 1}, c: 2})\<close> is
  \<open>("a.b", 1), ("c", 2)\<close> and \<open>flatten({})\<close> is empty.
\<close>

theorem flattenObject_is_the_set_of_leaves:
  "set (flattenObject (JObj r ps)) = {(join ''.'' ks, v) | ks v. leaf_at ps ks v}
   \<and> (\<forall>p v. (p, v) \<in> set (flattenObject (JObj r ps)) \<longrightarrow> \<not> is_mapping v)
   \<and> (\<forall>k a xs. (k, JArr a xs) \<in> set ps \<longrightarrow> (k, JArr a xs) \<in> set (flattenObject (JObj r ps)))
   \<and> flattenObject (JObj r0 [(''a'', JObj r1 [(''b'', JNum 1)]), (''c'', JNum 2)])
       = [(''a.b'', JNum 1), (''c'', JNum 2)]
   \<and> flattenObject (JObj r0 []) = []"
proof -
  have a: "\<forall>p v. (p, v) \<in> set (flattenObject (JObj r ps)) \<longrightarrow> \<not> is_mapping v"
    by (auto simp: set_flattenObject dest: leaf_at_not_mapping)
  have b: "\<forall>k a xs. (k, JArr a xs) \<in> set ps \<longrightarrow> (k, JArr a xs) \<in> set (flattenObject (JObj r ps))"
    using flatten_leaf_here [of _ _ ps "[]"] by (auto simp: flattenObject_def is_mapping_def)
  show ?thesis using a b by (simp add: set_flattenObject) (simp add: flattenObject_def)
qed

theorem flattenObject_is_the_set_of_leaves_witness:
  "flattenObject (JObj 11 [(''tags'', JArr 12 [JStr ''x'']), (''a'', JObj 13 [(''b'', JNum 1)])])
     = [(''tags'', JArr 12 [JStr ''x'']), (''a.b'', JNum 1)]
   \<and> (\<exists>ks. leaf_at [(''tags'', JArr 12 [JStr ''x'']), (''a'', JObj 13 [(''b'', JNum 1)])] ks (JNum 1)
          \<and> join ''.'' ks = ''a.b'')"
proof -
  have e: "flattenObject (JObj 11 [(''tags'', JArr 12 [JStr ''x'']), (''a'', JObj 13 [(''b'', JNum 1)])])
     = [(''tags'', JArr 12 [JStr ''x'']), (''a.b'', JNum 1)]"
    by (simp add: flattenObject_def)
  have "(''a.b'', JNum 1) \<in> set (flattenObject (JObj 11 [(''tags'', JArr 12 [JStr ''x'']), (''a'', JObj 13 [(''b'', JNum 1)])]))"
    by (simp add: e)
  with flattenObject_is_the_set_of_leaves
      [of 11 "[(''tags'', JArr 12 [JStr ''x'']), (''a'', JObj 13 [(''b'', JNum 1)])]" 0 0]
  have "\<exists>ks. leaf_at [(''tags'', JArr 12 [JStr ''x'']), (''a'', JObj 13 [(''b'', JNum 1)])] ks (JNum 1)
          \<and> join ''.'' ks = ''a.b''"
    by auto
  with e show ?thesis by simp
qed

section \<open>Properties of the matcher\<close>

subsection \<open>Renders and notified changes\<close>

lemma every_watched:
  "every (\<lambda>key index. P (array_read (map g ks) index) key) (r, ks)
     = list_all (\<lambda>key. P (g key) key) ks"
  by (auto simp: every_def list_all_length array_read_def)

lemma compute_watched:
  "compute discriminant (r, ks) (map (getFieldValue ctrl) ks)
     = list_all (\<lambda>key. strict_eq (getFieldValue ctrl key) (get discriminant key)) ks"
  by (simp add: compute_def every_watched [where P = "\<lambda>v key. strict_eq v (get discriminant key)"]
      del: map_map)

text \<open>
  On its first render the hook throws if \<open>JSON.stringify\<close> does; otherwise it derives the
  keys of the flattened pattern, subscribes to them and returns the conjunction, over
  these keys, of the form's value at the key being \<open>===\<close> the value \<open>get\<close> reads from the
  pattern at the key.
\<close>

lemma first_render:
  "useFormTypeguard form discriminant unmounted =
     (case JSON_stringify discriminant of
        Inl e \<Rightarrow> Inl e
      | Inr dep \<Rightarrow>
          (let name = (0, map fst (flattenObject discriminant));
               b = list_all (\<lambda>key. strict_eq (getFieldValue (control form) key) (get discriminant key))
                     (snd name)
           in Inr (b, \<lparr>fresh = 1, memo = Some (dep, name), subscription = Some name,
                       callback = compute discriminant name, isMatching = b,
                       subscribe_calls = 1, compute_calls = 1\<rparr>)))"
  by (simp add: useFormTypeguard_def useMemo_def useWatch_def unmounted_def Object_keys_def
      compute_watched Let_def del: map_map split: sum.splits)

lemma useMemo_cell:
  "useMemo F dep m = (v, m') \<Longrightarrow> memo m' = Some (dep, v) \<and> subscription m' = subscription m
     \<and> subscribe_calls m' = subscribe_calls m"
  by (auto simp: useMemo_def Let_def split: option.splits if_splits)

lemma useMemo_hit: "memo m = Some (dep, v) \<Longrightarrow> useMemo F dep m = (v, m)"
  by (simp add: useMemo_def)

lemma useMemo_miss:
  "memo m = None \<or> (\<exists>d0 v0. memo m = Some (d0, v0) \<and> d0 \<noteq> dep) \<Longrightarrow>
     fst (useMemo F dep m) = F (fresh m)"
  by (auto simp: useMemo_def Let_def)

lemma useWatch_subscribed:
  "useWatch c ctrl name m = (b, m') \<Longrightarrow>
     subscription m' = Some name \<and> memo m' = memo m \<and> callback m' = c"
  by (auto simp: useWatch_def Let_def split: if_splits)

lemma useWatch_hit:
  "subscription m = Some name \<Longrightarrow> useWatch c ctrl name m = (isMatching m, m\<lparr>callback := c\<rparr>)"
  by (simp add: useWatch_def)

lemma useWatch_computed:
  "useWatch c ctrl name m = (b, m') \<Longrightarrow> subscribe_calls m' \<noteq> subscribe_calls m \<Longrightarrow>
     b = c (map (getFieldValue ctrl) (snd name))"
  by (auto simp: useWatch_def Let_def split: if_splits)

lemma render_steps:
  assumes "useFormTypeguard form d m = Inr (b, m')"
  obtains dep name m1 where
    "JSON_stringify d = Inr dep"
    "useMemo (\<lambda>r. Object_keys r (flattenObject d)) dep m = (name, m1)"
    "useWatch (compute d name) (control form) name m1 = (b, m')"
proof -
  from assms obtain dep where k: "JSON_stringify d = Inr dep"
    by (auto simp: useFormTypeguard_def split: sum.splits)
  obtain name m1 where u: "useMemo (\<lambda>r. Object_keys r (flattenObject d)) dep m = (name, m1)"
    by (cases "useMemo (\<lambda>r. Object_keys r (flattenObject d)) dep m")
  obtain b2 m2 where w: "useWatch (compute d name) (control form) name m1 = (b2, m2)"
    by (cases "useWatch (compute d name) (control form) name m1")
  from assms k u w have "b2 = b" "m2 = m'" by (simp_all add: useFormTypeguard_def)
  with k u w that show thesis by blast
qed

text \<open>
  After any render that did not throw, the memo cell holds the key of the pattern just
  rendered, the live subscription is the one made with the memoised array, and the callback
  is the one of this render.
\<close>

lemma render_state:
  assumes "useFormTypeguard form d m = Inr (b, m')"
  shows "\<exists>dep name. JSON_stringify d = Inr dep \<and> memo m' = Some (dep, name)
           \<and> subscription m' = Some name \<and> callback m' = compute d name"
proof -
  from assms obtain dep name m1 where
    k: "JSON_stringify d = Inr dep" and
    u: "useMemo (\<lambda>r. Object_keys r (flattenObject d)) dep m = (name, m1)" and
    w: "useWatch (compute d name) (control form) name m1 = (b, m')"
    by (rule render_steps)
  from k useMemo_cell [OF u] useWatch_subscribed [OF w] show ?thesis by auto
qed

lemma render_computed:
  assumes "useFormTypeguard form d m = Inr (b, m')" and "subscribe_calls m' \<noteq> subscribe_calls m"
  shows "\<exists>name. subscription m' = Some name \<and> b = compute d name (map (getFieldValue (control form)) (snd name))"
proof -
  from assms(1) obtain dep name m1 where
    u: "useMemo (\<lambda>r. Object_keys r (flattenObject d)) dep m = (name, m1)" and
    w: "useWatch (compute d name) (control form) name m1 = (b, m')"
    by (rule render_steps)
  from useMemo_cell [OF u] assms(2) have "subscribe_calls m' \<noteq> subscribe_calls m1" by simp
  from useWatch_computed [OF w this] useWatch_subscribed [OF w] show ?thesis by auto
qed

lemma rerender_same_key:
  assumes "JSON_stringify d = Inr dep" and "memo m = Some (dep, name)" and "subscription m = Some name"
  shows "useFormTypeguard form d m = Inr (isMatching m, m\<lparr>callback := compute d name\<rparr>)"
  using assms by (simp add: useFormTypeguard_def useMemo_hit useWatch_hit)

text \<open>
  When the memo cell is empty or holds another key, the render derives the keys anew, and
  the matcher then watches the paths of the pattern just rendered.
\<close>

lemma watching_after_miss:
  assumes "useFormTypeguard form d m = Inr (b, m')" and "JSON_stringify d = Inr dep"
    and "memo m = None \<or> (\<exists>d0 v0. memo m = Some (d0, v0) \<and> d0 \<noteq> dep)"
  shows "watching d m'"
proof -
  from assms(1) obtain dep' name m1 where
    k: "JSON_stringify d = Inr dep'" and
    u: "useMemo (\<lambda>r. Object_keys r (flattenObject d)) dep' m = (name, m1)" and
    w: "useWatch (compute d name) (control form) name m1 = (b, m')"
    by (rule render_steps)
  from k assms(2) have "dep' = dep" by simp
  with useMemo_miss [OF assms(3), of "\<lambda>r. Object_keys r (flattenObject d)"] u
  have "name = Object_keys (fresh m) (flattenObject d)" by simp
  with useWatch_subscribed [OF w] show ?thesis by (simp add: watching_def Object_keys_def)
qed

lemma notify_recomputes:
  assumes "useFormTypeguard form d m = Inr (b, m')" and "notified before after m'"
  shows "\<exists>name. subscription m' = Some name
           \<and> isMatching (notify before after m') = compute d name (map (getFieldValue after) (snd name))
           \<and> compute_calls (notify before after m') = Suc (compute_calls m')"
  using render_state [OF assms(1)] assms(2) by (auto simp: notify_def onChange_def)

lemma first_subscription:
  "useFormTypeguard form d unmounted = Inr (b, m') \<Longrightarrow>
     subscription m' = Some (0, map fst (flattenObject d)) \<and> subscribe_calls m' = 1"
  by (auto simp: first_render Let_def split: sum.splits)

lemma unchanged_paths_do_not_recompute:
  "\<not> notified before after m \<Longrightarrow> notify before after m = m"
  by (simp add: notify_def)

text \<open>
  The spec's example: the form \<open>{kind: "a", value: "x"}\<close> matches the pattern \<open>{kind: "a"}\<close>;
  when \<open>kind\<close> changes to \<open>"b"\<close> the matcher is notified and recomputes to \<open>false\<close>, on the
  subscription it already has.
\<close>

lemma kind_example:
  "map_sum id fst (useFormTypeguard (kind_form ''a'') (kind_pattern r) unmounted) = Inr True
   \<and> map_option (\<lambda>m. (isMatching m, subscribe_calls m,
                       notified (control (kind_form ''a'')) (control (kind_form ''b'')) m))
        (map_option (notify (control (kind_form ''a'')) (control (kind_form ''b'')))
           (matcher_of (useFormTypeguard (kind_form ''a'') (kind_pattern r) unmounted)))
       = Some (False, 1, True)"
  by (simp add: first_render flattenObject_def kind_form_def kind_pattern_def getFieldValue_def
      get_def Let_def matcher_of_def notify_def notified_def onChange_def compute_def every_def
      array_read_def)

text \<open>
  C1. The claim: \<open>matches\<close> is the conjunction over the flattened pairs of the current
  value being equal to the expected value, by structure on array and nested leaves. The
  hook compares with \<open>===\<close>, which on arrays and objects is identity. On the pattern of its
  own documentation comment, against a form that holds exactly the values of the pattern,
  the hook returns \<open>false\<close>, where the conjunction with equality by value is \<open>true\<close>.
\<close>

theorem array_leaf_compared_by_identity:
  "map_sum id fst (useFormTypeguard premium_form docstring_pattern unmounted) = Inr False
   \<and> spec_matches (control premium_form) docstring_pattern = True"
  by (simp add: first_render flattenObject_def docstring_pattern_def premium_form_def
      getFieldValue_def get_def spec_matches_def deep_eq_def Let_def)

subsection \<open>Subscription\<close>

text \<open>
  The key of the memo is the JSON text of the pattern, which leaves out a property whose
  value is \<open>undefined\<close>. Rendered with \<open>{kind: "a", value: undefined}\<close> and then with
  \<open>{kind: "a"}\<close>, the hook finds the key unchanged and keeps the array \<open>["kind", "value"]\<close>.
\<close>

lemma stale_renders:
  "then_render (useFormTypeguard (value_form ''x'') kind_value_pattern unmounted)
       (value_form ''x'') (kind_pattern 51)
     = Inr (False,
            \<lparr>fresh = 1, memo = Some (JSON_text (kind_pattern 51), (0, [''kind'', ''value''])),
             subscription = Some (0, [''kind'', ''value'']),
             callback = compute (kind_pattern 51) (0, [''kind'', ''value'']),
             isMatching = False, subscribe_calls = 1, compute_calls = 1\<rparr>)"
proof -
  have j: "JSON_stringify kind_value_pattern = Inr (JSON_text (kind_pattern 51))"
    "JSON_stringify (kind_pattern 51) = Inr (JSON_text (kind_pattern 51))"
    by (simp_all add: kind_value_pattern_def kind_pattern_def JSON_text_def)
  have r1: "useFormTypeguard (value_form ''x'') kind_value_pattern unmounted
     = Inr (False,
            \<lparr>fresh = 1, memo = Some (JSON_text (kind_pattern 51), (0, [''kind'', ''value''])),
             subscription = Some (0, [''kind'', ''value'']),
             callback = compute kind_value_pattern (0, [''kind'', ''value'']),
             isMatching = False, subscribe_calls = 1, compute_calls = 1\<rparr>)"
    by (simp add: first_render j Let_def)
       (simp add: kind_value_pattern_def value_form_def flattenObject_def getFieldValue_def get_def)
  show ?thesis
    by (simp add: then_render_def r1 rerender_same_key [OF j(2)])
qed

text \<open>
  C8. The claim: the matcher subscribes to exactly the paths named in the flattened pattern,
  so a change to a path the pattern never names never triggers recomputation. It fails in
  the state above: the pattern now supplied, \<open>{kind: "a"}\<close>, names \<open>kind\<close> only, the live
  subscription is to \<open>kind\<close> and \<open>value\<close>, and a change of \<open>value\<close> from \<open>"x"\<close> to \<open>"y"\<close> runs
  \<open>compute\<close> a second time. The result is \<open>false\<close>, for a form that satisfies the pattern.
\<close>

theorem stale_keys_stay_subscribed:
  "map_option (\<lambda>m. (subscription m, subscribe_calls m, compute_calls m))
       (matcher_of (then_render (useFormTypeguard (value_form ''x'') kind_value_pattern unmounted)
                      (value_form ''x'') (kind_pattern 51)))
     = Some (Some (0, [''kind'', ''value'']), 1, 1)
   \<and> map fst (flattenObject (kind_pattern 51)) = [''kind'']
   \<and> map_option (\<lambda>m. (isMatching m, compute_calls m))
       (map_option (notify (control (value_form ''x'')) (control (value_form ''y'')))
          (matcher_of (then_render (useFormTypeguard (value_form ''x'') kind_value_pattern unmounted)
                         (value_form ''x'') (kind_pattern 51))))
     = Some (False, 2)
   \<and> spec_matches (control (value_form ''y'')) (kind_pattern 51) = True"
  by (simp add: stale_renders matcher_of_def notify_def notified_def onChange_def)
     (simp add: kind_pattern_def value_form_def flattenObject_def getFieldValue_def get_def
        compute_def every_def array_read_def spec_matches_def deep_eq_def)

subsection \<open>Mismatched and absent fields\<close>

text \<open>
  For a pattern whose keys are distinct and free of dots at every level, \<open>get\<close> reads back
  at each flattened path the value flattened for it.
\<close>

lemma split_dots_plain: "CHR ''.'' \<notin> set k \<Longrightarrow> split_dots k = [k]"
  by (induction k) auto

lemma split_dots_prefix:
  "CHR ''.'' \<notin> set k \<Longrightarrow> split_dots (k @ CHR ''.'' # rest) = k # split_dots rest"
  by (induction k) auto

lemma split_dots_join:
  "ks \<noteq> [] \<Longrightarrow> \<forall>k\<in>set ks. CHR ''.'' \<notin> set k \<Longrightarrow> split_dots (join ''.'' ks) = ks"
proof (induction "''.''" ks rule: join.induct)
  case 1
  then show ?case by simp
next
  case (2 s)
  then show ?case by (simp add: split_dots_plain)
next
  case (3 s t ss)
  then show ?case by (simp add: split_dots_prefix)
qed

lemma well_keyed_member:
  "well_keyed ps \<Longrightarrow> (k, v) \<in> set ps \<Longrightarrow>
     map_of ps k = Some v \<and> CHR ''.'' \<notin> set k \<and> (\<forall>r qs. v = JObj r qs \<longrightarrow> well_keyed qs)"
proof (induction ps rule: well_keyed.induct)
  case 1
  then show ?case by simp
next
  case (2 k' v' rest)
  then show ?case by (auto simp: image_iff split: jsval.splits)
qed

lemma leaf_at_get_path:
  "leaf_at ps ks v \<Longrightarrow> well_keyed ps \<Longrightarrow>
     get_path (JObj r ps) ks = v \<and> ks \<noteq> [] \<and> (\<forall>k\<in>set ks. CHR ''.'' \<notin> set k)"
proof (induction arbitrary: r rule: leaf_at.induct)
  case (here k v ps)
  with well_keyed_member [of ps k v] show ?case by simp
next
  case (below k r' qs ps ks v)
  from well_keyed_member [OF below.prems below.hyps(1)]
  have m: "map_of ps k = Some (JObj r' qs)" "CHR ''.'' \<notin> set k" "well_keyed qs" by auto
  from below.IH [OF m(3), of r'] m show ?case by simp
qed

lemma flattened_value_is_read_back:
  assumes "well_keyed ps" and "(path, expected) \<in> set (flattenObject (JObj r ps))"
  shows "get (JObj r ps) path = expected"
proof -
  from assms(2) obtain ks where l: "leaf_at ps ks expected" and p: "path = join ''.'' ks"
    by (auto simp: set_flattenObject)
  from leaf_at_get_path [OF l assms(1), of r] have
    g: "get_path (JObj r ps) ks = expected" and ne: "ks \<noteq> []"
    and df: "\<forall>k\<in>set ks. CHR ''.'' \<notin> set k" by auto
  from split_dots_join [OF ne df] p have sp: "split_dots path = ks" by simp
  show ?thesis
  proof (cases "map_of ps path")
    case None
    with g sp show ?thesis by (simp add: get_def)
  next
    case (Some v)
    then have mem: "(path, v) \<in> set ps" by (rule map_of_SomeD)
    from well_keyed_member [OF assms(1) mem] have "CHR ''.'' \<notin> set path" by simp
    then have "split_dots path = [path]" by (rule split_dots_plain)
    with sp have "ks = [path]" by simp
    with g Some have "v = expected" by simp
    with Some g sp show ?thesis by (simp add: get_def)
  qed
qed

text \<open>
  C9, as the claim states it, fails twice. A path whose field is absent in the form is said
  to evaluate to \<open>false\<close>: the pattern \<open>{kind: "a", value: undefined}\<close> has the path \<open>value\<close>,
  the form \<open>{kind: "a"}\<close> has no such field, and the hook returns \<open>true\<close>, since an absent
  field reads as \<open>undefined\<close>, which is \<open>===\<close> the expected \<open>undefined\<close>. And the evaluation is
  said never to throw: on the pattern \<open>{id: 10n}\<close> the render throws the \<open>TypeError\<close> of
  \<open>JSON.stringify\<close>.
\<close>

theorem absent_field_matches_undefined:
  "(''value'', JUndefined) \<in> set (flattenObject kind_value_pattern)
   \<and> map_of [(''kind'', JStr ''a'')] ''value'' = None
   \<and> getFieldValue (JObj 62 [(''kind'', JStr ''a'')]) ''value'' = JUndefined
   \<and> map_sum id fst (useFormTypeguard \<lparr>control = JObj 62 [(''kind'', JStr ''a'')]\<rparr>
                        kind_value_pattern unmounted) = Inr True
   \<and> useFormTypeguard \<lparr>control = JObj 63 [(''id'', JBigInt 10)]\<rparr> bigint_pattern unmounted
       = Inl (TypeError ''Do not know how to serialize a BigInt'')"
  by (simp add: first_render kind_value_pattern_def bigint_pattern_def flattenObject_def
      getFieldValue_def get_def Let_def)

text \<open>
  C9, amended. A render returns a boolean whenever \<open>JSON.stringify\<close> of the pattern does not
  throw. Take a flattened pair of the pattern, a path and its expected value, which the
  hook reads back from the pattern as flattened, and a form whose current value at the
  path is not \<open>===\<close> the expected value; an absent field reads as \<open>undefined\<close> and is such a
  mismatch whenever the expected value is not \<open>undefined\<close>. Then every computation of
  \<open>matches\<close> by a matcher that watches the paths of this pattern gives \<open>false\<close>: the one of a
  render that subscribes, and the one of a notified change. This holds in every state of
  the matcher, not only on its first render.
\<close>

theorem mismatch_makes_matches_false:
  assumes "(path, expected) \<in> set (flattenObject d)"
    and "get d path = expected"
    and "\<not> strict_eq (getFieldValue ctrl path) expected
         \<or> (getFieldValue ctrl path = JUndefined \<and> expected \<noteq> JUndefined)"
  shows "(\<forall>dep. JSON_stringify d = Inr dep \<longrightarrow> (\<exists>b m'. useFormTypeguard form d m = Inr (b, m')))
         \<and> (\<forall>b m'. useFormTypeguard \<lparr>control = ctrl\<rparr> d m = Inr (b, m') \<and> watching d m'
                     \<and> subscribe_calls m' \<noteq> subscribe_calls m \<longrightarrow> b = False)
         \<and> (\<forall>b m' before. useFormTypeguard form d m = Inr (b, m') \<and> watching d m'
                     \<and> notified before ctrl m' \<longrightarrow> isMatching (notify before ctrl m') = False)"
proof -
  from assms(1) have key: "path \<in> set (map fst (flattenObject d))" by force
  from assms(2,3) have "\<not> strict_eq (getFieldValue ctrl path) (get d path)" by auto
  with key have no: "\<not> list_all (\<lambda>key. strict_eq (getFieldValue ctrl key) (get d key))
                         (map fst (flattenObject d))"
    by (auto simp: list_all_iff)
  have c: "compute d name (map (getFieldValue ctrl) (snd name)) = False"
    if "snd name = map fst (flattenObject d)" for name
  proof (cases name)
    case (Pair r ks)
    with that no compute_watched [of d r ks ctrl] show ?thesis by simp
  qed
  have 1: "\<exists>b m'. useFormTypeguard form d m = Inr (b, m')" if "JSON_stringify d = Inr dep" for dep
    using that by (simp add: useFormTypeguard_def Let_def split_beta)
  have 2: "b = False"
    if r: "useFormTypeguard \<lparr>control = ctrl\<rparr> d m = Inr (b, m')" and w: "watching d m'"
      and s: "subscribe_calls m' \<noteq> subscribe_calls m" for b m'
  proof -
    from render_computed [OF r s] obtain name where
      n: "subscription m' = Some name" "b = compute d name (map (getFieldValue ctrl) (snd name))"
      by auto
    from w n(1) have "snd name = map fst (flattenObject d)" by (simp add: watching_def)
    with c n(2) show ?thesis by simp
  qed
  have 3: "isMatching (notify before ctrl m') = False"
    if r: "useFormTypeguard form d m = Inr (b, m')" and w: "watching d m'"
      and f: "notified before ctrl m'" for b m' before
  proof -
    from notify_recomputes [OF r f] obtain name where
      n: "subscription m' = Some name"
         "isMatching (notify before ctrl m') = compute d name (map (getFieldValue ctrl) (snd name))"
      by auto
    from w n(1) have "snd name = map fst (flattenObject d)" by (simp add: watching_def)
    with c n(2) show ?thesis by simp
  qed
  from 1 2 3 show ?thesis by blast
qed

theorem mismatch_makes_matches_false_witness:
  "map_sum id fst (useFormTypeguard \<lparr>control = JObj 62 [(''value'', JStr ''x'')]\<rparr> (kind_pattern 51) unmounted)
     = Inr False
   \<and> map_option (isMatching \<circ> notify (control (kind_form ''a'')) (control (kind_form ''b'')))
       (matcher_of (useFormTypeguard (kind_form ''a'') (kind_pattern 51) unmounted)) = Some False"
proof -
  let ?d = "kind_pattern 51"
  have p: "(''kind'', JStr ''a'') \<in> set (flattenObject ?d)"
    by (simp add: flattenObject_def kind_pattern_def)
  have g: "get ?d ''kind'' = JStr ''a''"
    by (simp add: get_def kind_pattern_def)
  have a: "\<not> strict_eq (getFieldValue (JObj 62 [(''value'', JStr ''x'')]) ''kind'') (JStr ''a'')
         \<or> (getFieldValue (JObj 62 [(''value'', JStr ''x'')]) ''kind'' = JUndefined \<and> JStr ''a'' \<noteq> JUndefined)"
    by (simp add: getFieldValue_def)
  have b: "\<not> strict_eq (getFieldValue (control (kind_form ''b'')) ''kind'') (JStr ''a'')
         \<or> (getFieldValue (control (kind_form ''b'')) ''kind'' = JUndefined \<and> JStr ''a'' \<noteq> JUndefined)"
    by (simp add: getFieldValue_def kind_form_def)
  obtain dep where j: "JSON_stringify ?d = Inr dep"
    by (simp add: kind_pattern_def)
  have u: "memo unmounted = None \<or> (\<exists>d0 v0. memo unmounted = Some (d0, v0) \<and> d0 \<noteq> dep)"
    "subscribe_calls unmounted = 0"
    by (simp_all add: unmounted_def)
  obtain b1 m1 where r1: "useFormTypeguard \<lparr>control = JObj 62 [(''value'', JStr ''x'')]\<rparr> ?d unmounted = Inr (b1, m1)"
    by (simp add: first_render j Let_def)
  have w1: "watching ?d m1" by (rule watching_after_miss [OF r1 j u(1)])
  have s1: "subscribe_calls m1 \<noteq> subscribe_calls unmounted"
    using first_subscription [OF r1] u(2) by simp
  obtain b2 m2 where r2: "useFormTypeguard (kind_form ''a'') ?d unmounted = Inr (b2, m2)"
    by (simp add: first_render j Let_def)
  have w2: "watching ?d m2" by (rule watching_after_miss [OF r2 j u(1)])
  have n2: "notified (control (kind_form ''a'')) (control (kind_form ''b'')) m2"
    using first_subscription [OF r2]
    by (simp add: notified_def flattenObject_def kind_pattern_def kind_form_def getFieldValue_def)
  from mismatch_makes_matches_false [OF p g a, of "\<lparr>control = JObj 62 [(''value'', JStr ''x'')]\<rparr>" unmounted] r1 w1 s1
  have "b1 = False" by blast
  moreover
  from mismatch_makes_matches_false [OF p g b, of "kind_form ''a''" unmounted] r2 w2 n2
  have "isMatching (notify (control (kind_form ''a'')) (control (kind_form ''b'')) m2) = False" by blast
  ultimately show ?thesis by (simp add: r1 r2 matcher_of_def)
qed

subsection \<open>Patterns that are equal by value\<close>








end
